theory Spec2Isabelle
  imports Main "HOL-Library.Word"
begin

section \<open>The channel pool of channel.go\<close>

text \<open>
  The pool is modelled sequentially: every method call runs to its end before the next one
  starts, so the mutex \<open>mu\<close> and the atomicity of the counter updates leave no trace in the
  model. What a call does besides returning is made explicit: the pool record is passed in
  and returned, a nil function call is the outcome \<open>Panicked\<close>, and two ghost fields record
  the calls of the user's functions (\<open>closeLog\<close>, \<open>factoryCalls\<close>).
\<close>

subsection \<open>Data\<close>

text \<open>
  A Go \<open>interface{}\<close> value is a resource handle or nil; resources are compared by their
  handle, which stands for the identity of the Go value.
\<close>

type_synonym 'r iface = "'r option"

text \<open>
  Modelled from the spec: \<open>ErrClosed\<close> is declared in a file of the package that is not
  part of the sources at hand; the spec describes it as the closed-pool error of Acquire.
  \<open>ErrorsNew s\<close> is the value of \<open>errors.New(s)\<close>, and \<open>Opaque e\<close> is an error made by the
  user's factory or closer. A Go \<open>error\<close> value is one of these or nil.
\<close>

datatype 'e error = ErrClosed | ErrorsNew string | Opaque 'e

type_synonym 'e err = "'e error option"

text \<open>
  \<open>time.Time\<close> and \<open>time.Duration\<close> are integers (nanoseconds); \<open>t.Add(d).Before(now)\<close> is
  \<open>t + d < now\<close>.
\<close>

record ('r, 'e) PoolConfig =
  MaxCap :: int
  Factory :: "(nat \<Rightarrow> 'r iface \<times> 'e err) option"
  Close :: "('r iface \<Rightarrow> 'e err) option"
  IdleTimeout :: int

record 'r idleConn =
  conn :: "'r iface"
  t :: int

record Stats =
  Hits :: "32 word"
  Misses :: "32 word"
  TotalConns :: "32 word"

text \<open>A buffered channel that is open: its queue, oldest element first, and its capacity.\<close>

record 'a chan =
  buf :: "'a list"
  cap :: nat

text \<open>
  The fields of \<open>channelPool\<close> that the active code reads or writes. \<open>conns\<close> is \<open>None\<close> for
  the nil channel; an element of the channel is a pointer, \<open>None\<close> when nil. The factory is a
  Go function without arguments whose result may differ from call to call: it is modelled
  as a function of the number of calls made before. The closer's result is a function of
  the resource it is given. \<open>closeLog\<close> lists the arguments of the calls of the user's closer
  in order, \<open>factoryCalls\<close> counts the calls of the user's factory. The list \<open>busyConns\<close>
  and its mutex are left out: only \<open>popBusy\<close>, \<open>pushBusy\<close> and \<open>BusyLen\<close> touch them, and
  no other method calls these.
\<close>

record ('r, 'e) channelPool =
  conns :: "'r idleConn option chan option"
  factory :: "(nat \<Rightarrow> 'r iface \<times> 'e err) option"
  close :: "('r iface \<Rightarrow> 'e err) option"
  idleTimeout :: int
  stats :: Stats
  closeLog :: "'r iface list"
  factoryCalls :: nat

datatype 'a outcome = Returned 'a | Panicked

subsection \<open>Operations\<close>

text \<open>
  \<open>NewChannelPool\<close> also writes the default capacity back into the configuration it was
  given; the model returns the pool only.
\<close>

definition NewChannelPool :: "('r, 'e) PoolConfig \<Rightarrow> ('r, 'e) channelPool" where
  "NewChannelPool poolConfig =
     (let maxCap = (if MaxCap poolConfig \<le> 0 then 10 else MaxCap poolConfig)
      in \<lparr>conns = Some \<lparr>buf = [], cap = nat maxCap\<rparr>,
          factory = Factory poolConfig,
          close = PoolConfig.Close poolConfig,
          idleTimeout = IdleTimeout poolConfig,
          stats = \<lparr>Hits = 0, Misses = 0, TotalConns = 0\<rparr>,
          closeLog = [],
          factoryCalls = 0\<rparr>)"

definition Close :: "('r, 'e) channelPool \<Rightarrow> 'r iface \<Rightarrow> 'e err \<times> ('r, 'e) channelPool" where
  "Close c cn =
     (case cn of
        None \<Rightarrow> (Some (ErrorsNew ''pool is nil. rejecting''), c)
      | Some _ \<Rightarrow>
          (case close c of
             Some f \<Rightarrow> (f cn, c\<lparr>closeLog := closeLog c @ [cn]\<rparr>)
           | None \<Rightarrow> (None, c)))"

text \<open>
  The loop of \<open>Get\<close>, on the queue of the channel that was read from \<open>c.conns\<close> (capacity \<open>k\<close>).
  An empty queue is the \<open>default\<close> branch of the \<open>select\<close>. All readings of the clock during
  one call are the instant \<open>now\<close>.
\<close>

fun Get_loop :: "int \<Rightarrow> nat \<Rightarrow> 'r idleConn option list \<Rightarrow> ('r, 'e) channelPool
    \<Rightarrow> ('r iface \<times> 'e err) outcome \<times> ('r, 'e) channelPool" where
  "Get_loop now k [] c =
     (let c0 = c\<lparr>conns := Some \<lparr>buf = [], cap = k\<rparr>\<rparr>
      in case factory c0 of
           None \<Rightarrow> (Panicked, c0)
         | Some f \<Rightarrow>
             (let (cn, e) = f (factoryCalls c0);
                  c1 = c0\<lparr>factoryCalls := Suc (factoryCalls c0)\<rparr>
              in if e \<noteq> None then (Returned (None, e), c1)
                 else (Returned (cn, None),
                       c1\<lparr>stats := (stats c1)\<lparr>Misses := Misses (stats c1) + 1\<rparr>\<rparr>)))"
| "Get_loop now k (None # rest) c = Get_loop now k rest c"
| "Get_loop now k (Some wrapConn # rest) c =
     (if 0 < idleTimeout c \<and> t wrapConn + idleTimeout c < now
      then Get_loop now k rest (snd (Close c (conn wrapConn)))
      else (Returned (conn wrapConn, None),
            c\<lparr>conns := Some \<lparr>buf = rest, cap = k\<rparr>,
              stats := (stats c)\<lparr>Hits := Hits (stats c) + 1\<rparr>\<rparr>))"

definition Get :: "int \<Rightarrow> ('r, 'e) channelPool
    \<Rightarrow> ('r iface \<times> 'e err) outcome \<times> ('r, 'e) channelPool" where
  "Get now c =
     (case conns c of
        None \<Rightarrow> (Returned (None, Some ErrClosed), c)
      | Some ch \<Rightarrow> Get_loop now (cap ch) (buf ch) c)"

definition Put :: "int \<Rightarrow> ('r, 'e) channelPool \<Rightarrow> 'r iface
    \<Rightarrow> 'e err \<times> ('r, 'e) channelPool" where
  "Put now c cn =
     (case cn of
        None \<Rightarrow> (Some (ErrorsNew ''pool is nil. rejecting''), c)
      | Some _ \<Rightarrow>
          (case conns c of
             None \<Rightarrow> Close c cn
           | Some ch \<Rightarrow>
               if length (buf ch) < cap ch
               then (None, c\<lparr>conns := Some (ch\<lparr>buf := buf ch @ [Some \<lparr>conn = cn, t = now\<rparr>]\<rparr>)\<rparr>)
               else Close c cn))"

text \<open>
  The \<open>range\<close> loop of \<open>Release\<close> over the closed channel, with the closer captured before
  the fields were cleared and the log of closer calls.
\<close>

fun Release_loop :: "('r iface \<Rightarrow> 'e err) option \<Rightarrow> 'r idleConn option list \<Rightarrow> 'r iface list
    \<Rightarrow> unit outcome \<times> 'r iface list" where
  "Release_loop closeFun [] lg = (Returned (), lg)"
| "Release_loop closeFun (None # rest) lg = (Panicked, lg)"
| "Release_loop closeFun (Some wrapConn # rest) lg =
     (case closeFun of
        None \<Rightarrow> (Panicked, lg)
      | Some f \<Rightarrow> Release_loop closeFun rest (lg @ [conn wrapConn]))"

definition Release :: "('r, 'e) channelPool \<Rightarrow> unit outcome \<times> ('r, 'e) channelPool" where
  "Release c =
     (let conns0 = conns c;
          closeFun = close c;
          c1 = c\<lparr>conns := None, factory := None, close := None\<rparr>
      in case conns0 of
           None \<Rightarrow> (Returned (), c1)
         | Some ch \<Rightarrow>
             (let (r, lg) = Release_loop closeFun (buf ch) (closeLog c1)
              in (r, c1\<lparr>closeLog := lg\<rparr>)))"

definition Len :: "('r, 'e) channelPool \<Rightarrow> nat" where
  "Len c = (case conns c of None \<Rightarrow> 0 | Some ch \<Rightarrow> length (buf ch))"

definition Stats :: "('r, 'e) channelPool \<Rightarrow> Stats" where
  "Stats p = \<lparr>Hits = Hits (stats p), Misses = Misses (stats p),
              TotalConns = word_of_nat (Len p)\<rparr>"

subsection \<open>Sequences of calls\<close>

text \<open>
  A caller that hands back one resource after the other: each element is the resource and
  the instant of the call. The errors returned are collected in order.
\<close>

fun Puts :: "('r, 'e) channelPool \<Rightarrow> ('r iface \<times> int) list
    \<Rightarrow> 'e err list \<times> ('r, 'e) channelPool" where
  "Puts c [] = ([], c)"
| "Puts c ((cn, now) # rest) =
     (let (e, c1) = Put now c cn; (es, c2) = Puts c1 rest in (e # es, c2))"

text \<open>Any caller: the calls of the four methods, and the pool they leave behind.\<close>

datatype 'r call = CallGet int | CallPut int "'r iface" | CallClose "'r iface" | CallRelease

fun step :: "('r, 'e) channelPool \<Rightarrow> 'r call \<Rightarrow> ('r, 'e) channelPool" where
  "step c (CallGet now) = snd (Get now c)"
| "step c (CallPut now cn) = snd (Put now c cn)"
| "step c (CallClose cn) = snd (Close c cn)"
| "step c CallRelease = snd (Release c)"

definition run :: "('r, 'e) channelPool \<Rightarrow> 'r call list \<Rightarrow> ('r, 'e) channelPool" where
  "run c calls = foldl step c calls"

section \<open>Auxiliary facts\<close>

lemma Close_fields:
  "conns (snd (Close c cn)) = conns c"
  "factory (snd (Close c cn)) = factory c"
  "close (snd (Close c cn)) = close c"
  "idleTimeout (snd (Close c cn)) = idleTimeout c"
  "stats (snd (Close c cn)) = stats c"
  "factoryCalls (snd (Close c cn)) = factoryCalls c"
  by (simp_all add: Close_def split: option.splits)

lemma Close_Some:
  "snd (Close c (Some r)) =
     c\<lparr>closeLog := closeLog c @ (case close c of None \<Rightarrow> [] | Some f \<Rightarrow> [Some r])\<rparr>"
  by (simp add: Close_def split: option.splits)

text \<open>A pool that was shut down stays as it is, whatever is called on it.\<close>

lemma closed_after_Release:
  "conns (snd (Release c)) = None \<and> close (snd (Release c)) = None
   \<and> factory (snd (Release c)) = None"
  by (simp add: Release_def Let_def split: option.splits prod.splits)

lemma closed_step:
  "conns c = None \<Longrightarrow> close c = None \<Longrightarrow> factory c = None \<Longrightarrow> step c x = c"
  by (cases x) (simp_all add: Get_def Put_def Close_def Release_def split: option.splits)

lemma closed_run:
  "conns c = None \<Longrightarrow> close c = None \<Longrightarrow> factory c = None \<Longrightarrow> run c calls = c"
  unfolding run_def by (induction calls) (simp_all add: closed_step)

text \<open>The loop of \<open>Get\<close> on a queue that starts with entries that are too old.\<close>

lemma Get_loop_stale_prefix:
  assumes "0 < idleTimeout c"
    and "\<forall>(r, tm) \<in> set pre. idleTimeout c < now - tm"
  shows "Get_loop now k (map (\<lambda>(r, tm). Some \<lparr>conn = Some r, t = tm\<rparr>) pre @ rest) c =
     Get_loop now k rest
       (c\<lparr>closeLog := closeLog c @
            (case close c of None \<Rightarrow> [] | Some f \<Rightarrow> map (Some \<circ> fst) pre)\<rparr>)"
  using assms
proof (induction pre arbitrary: c)
  case Nil
  then show ?case by (simp split: option.splits)
next
  case (Cons x pre)
  obtain r tm where x: "x = (r, tm)" by (cases x)
  let ?c' = "snd (Close c (Some r))"
  have st: "tm + idleTimeout c < now" using Cons.prems(2) by (simp add: x)
  have t': "0 < idleTimeout ?c'" using Cons.prems(1) by (simp add: Close_fields)
  have pre': "\<forall>(r, tm) \<in> set pre. idleTimeout ?c' < now - tm"
    using Cons.prems(2) by (simp add: Close_fields)
  have pop: "Get_loop now k (map (\<lambda>(r, tm). Some \<lparr>conn = Some r, t = tm\<rparr>) (x # pre) @ rest) c
      = Get_loop now k (map (\<lambda>(r, tm). Some \<lparr>conn = Some r, t = tm\<rparr>) pre @ rest) ?c'"
    using Cons.prems(1) st by (simp add: x)
  show ?case
    by (simp only: pop Cons.IH [OF t' pre']) (simp add: x Close_Some comp_def split: option.splits)
qed

lemma Get_loop_fresh_head:
  assumes "0 < idleTimeout c" and "now - tm \<le> idleTimeout c"
  shows "Get_loop now k (Some \<lparr>conn = cn, t = tm\<rparr> # rest) c =
     (Returned (cn, None),
      c\<lparr>conns := Some \<lparr>buf = rest, cap = k\<rparr>,
        stats := (stats c)\<lparr>Hits := Hits (stats c) + 1\<rparr>\<rparr>)"
  using assms by simp

text \<open>
  What the loop of \<open>Get\<close> returns, and what it does to the queue and to the counters, does
  not depend on the closer.
\<close>

lemma Get_loop_closer_irrelevant:
  "fst (Get_loop now k xs (c\<lparr>close := cl, closeLog := lg\<rparr>)) = fst (Get_loop now k xs c)
   \<and> conns (snd (Get_loop now k xs (c\<lparr>close := cl, closeLog := lg\<rparr>))) =
       conns (snd (Get_loop now k xs c))
   \<and> stats (snd (Get_loop now k xs (c\<lparr>close := cl, closeLog := lg\<rparr>))) =
       stats (snd (Get_loop now k xs c))
   \<and> factoryCalls (snd (Get_loop now k xs (c\<lparr>close := cl, closeLog := lg\<rparr>))) =
       factoryCalls (snd (Get_loop now k xs c))"
proof (induction xs arbitrary: c lg)
  case Nil
  show ?case by (cases "factory c") (simp_all add: Let_def split: prod.splits)
next
  case (Cons x xs)
  show ?case
  proof (cases x)
    case None
    then show ?thesis using Cons.IH by simp
  next
    case (Some w)
    show ?thesis
    proof (cases "0 < idleTimeout c \<and> t w + idleTimeout c < now")
      case True
      define lg1 where "lg1 = closeLog (snd (Close (c\<lparr>close := cl, closeLog := lg\<rparr>) (conn w)))"
      define lg2 where "lg2 = closeLog (snd (Close c (conn w)))"
      have l1: "snd (Close (c\<lparr>close := cl, closeLog := lg\<rparr>) (conn w)) =
          c\<lparr>close := cl, closeLog := lg1\<rparr>"
        unfolding lg1_def by (simp add: Close_def split: option.splits)
      have l2: "snd (Close c (conn w)) = c\<lparr>closeLog := lg2\<rparr>"
        unfolding lg2_def by (simp add: Close_def split: option.splits)
      show ?thesis
        using True Cons.IH [where c = "c\<lparr>closeLog := lg2\<rparr>" and lg = lg1]
        by (simp add: Some l1 l2)
    next
      case False
      then show ?thesis by (auto simp add: Some)
    qed
  qed
qed

text \<open>Handing back resources one after the other, none of them nil.\<close>

lemma Puts_entries:
  assumes "conns c = Some ch"
  shows "Puts c (map (\<lambda>(r, tm). (Some r, tm)) rs) =
     (replicate (length (take (cap ch - length (buf ch)) rs)) None @
        (case close c of
           None \<Rightarrow> replicate (length (drop (cap ch - length (buf ch)) rs)) None
         | Some f \<Rightarrow> map (\<lambda>(r, tm). f (Some r)) (drop (cap ch - length (buf ch)) rs)),
      c\<lparr>conns := Some (ch\<lparr>buf := buf ch @
                 map (\<lambda>(r, tm). Some \<lparr>conn = Some r, t = tm\<rparr>)
                   (take (cap ch - length (buf ch)) rs)\<rparr>),
        closeLog := closeLog c @
          (case close c of
             None \<Rightarrow> []
           | Some f \<Rightarrow> map (Some \<circ> fst) (drop (cap ch - length (buf ch)) rs))\<rparr>)"
  using assms
proof (induction rs arbitrary: c ch)
  case Nil
  then show ?case by (simp split: option.splits)
next
  case (Cons x rs)
  obtain r tm where x: "x = (r, tm)" by (cases x)
  show ?case
  proof (cases "length (buf ch) < cap ch")
    case True
    let ?ch' = "ch\<lparr>buf := buf ch @ [Some \<lparr>conn = Some r, t = tm\<rparr>]\<rparr>"
    let ?c' = "c\<lparr>conns := Some ?ch'\<rparr>"
    have put: "Put tm c (Some r) = (None, ?c')"
      using Cons.prems True by (simp add: Put_def)
    have c': "conns ?c' = Some ?ch'" by simp
    have m: "cap ch - length (buf ch) = Suc (cap ?ch' - length (buf ?ch'))"
      using True by simp
    show ?thesis
      unfolding m
      by (simp add: x put Cons.IH [OF c'] split: option.splits)
  next
    case False
    let ?c' = "snd (Close c (Some r))"
    have put: "Put tm c (Some r) = Close c (Some r)"
      using Cons.prems False by (simp add: Put_def)
    have c': "conns ?c' = Some ch"
      using Cons.prems by (simp add: Close_fields)
    have m: "cap ch - length (buf ch) = 0" using False by simp
    show ?thesis
      unfolding m
      using Cons.IH [OF c']
      by (simp add: x put m split_beta comp_def Close_def split: option.splits)
  qed
qed

text \<open>\<open>Put\<close> keeps the channel and its capacity, and never fills it beyond the capacity.\<close>

lemma Put_bounded:
  assumes "conns c = Some ch" and "length (buf ch) \<le> cap ch"
  shows "\<exists>ch1. conns (snd (Put now c cn)) = Some ch1 \<and> cap ch1 = cap ch
           \<and> length (buf ch1) \<le> cap ch1"
  using assms by (cases cn) (auto simp add: Put_def Close_fields)

lemma Puts_bounded:
  assumes "conns c = Some ch" and "length (buf ch) \<le> cap ch"
  shows "\<exists>ch1. conns (snd (Puts c calls)) = Some ch1 \<and> cap ch1 = cap ch
           \<and> length (buf ch1) \<le> cap ch1"
  using assms
proof (induction calls arbitrary: c ch)
  case Nil
  then show ?case by simp
next
  case (Cons x calls)
  obtain cn now where x: "x = (cn, now)" by (cases x)
  obtain ch1 where ch1: "conns (snd (Put now c cn)) = Some ch1" "cap ch1 = cap ch"
      "length (buf ch1) \<le> cap ch1"
    using Put_bounded [OF Cons.prems] by blast
  show ?case
    using Cons.IH [OF ch1(1) ch1(3)] ch1(2)
    by (simp add: x split_beta)
qed

lemma Release_loop_entries:
  "Release_loop (Some f) (map (\<lambda>(r, tm). Some \<lparr>conn = Some r, t = tm\<rparr>) xs) lg =
     (Returned (), lg @ map (Some \<circ> fst) xs)"
  by (induction xs arbitrary: lg) (simp_all add: split_beta)

text \<open>Without a captured closer the loop of \<open>Release\<close> stops at the first entry.\<close>

lemma Release_loop_no_closer:
  "xs \<noteq> [] \<Longrightarrow> Release_loop None xs lg = (Panicked, lg)"
  by (cases xs; cases "hd xs") auto

lemma Release_no_closer:
  assumes "conns c = Some ch" and "close c = None" and "buf ch \<noteq> []"
  shows "fst (Release c) = Panicked"
  using assms by (simp add: Release_def Release_loop_no_closer)

section \<open>Nil resources\<close>

text \<open>
  C7: \<open>Put\<close> and \<open>Close\<close> of a nil resource both return the error
  \<open>errors.New("pool is nil. rejecting")\<close> and leave the whole pool as it was: the buffer, the
  counters, and the logs of the calls of the factory and of the closer.
\<close>

theorem nil_resource_rejected:
  "Put now c None = (Some (ErrorsNew ''pool is nil. rejecting''), c)
   \<and> Close c None = (Some (ErrorsNew ''pool is nil. rejecting''), c)"
  by (simp add: Put_def Close_def)

section \<open>Reuse of a released resource\<close>

text \<open>
  C1, as it holds: on an open pool of capacity 1 whose idle buffer is empty when \<open>Put\<close> is
  called (as \<open>NewChannelPool\<close> makes it for \<open>MaxCap = 1\<close>), with the idle timeout
  disabled (\<open>idleTimeout \<le> 0\<close>) or not smaller than the time between the two calls,
  \<open>Put\<close> of a resource \<open>r\<close> buffers it and the \<open>Get\<close> that follows returns the same \<open>r\<close>
  with a nil error; the pool is then as before the two calls except that \<open>Hits\<close> is one
  more (modulo \<open>2^32\<close>): \<open>Misses\<close> is unchanged, and neither the factory nor the closer
  was called.
\<close>

theorem Put_then_Get_returns_same_resource:
  assumes "conns c = Some \<lparr>buf = [], cap = 1\<rparr>"
    and "idleTimeout c \<le> 0 \<or> now' - now \<le> idleTimeout c"
  shows "Put now c (Some r) =
           (None, c\<lparr>conns := Some \<lparr>buf = [Some \<lparr>conn = Some r, t = now\<rparr>], cap = 1\<rparr>\<rparr>)
    \<and> Get now' (snd (Put now c (Some r))) =
        (Returned (Some r, None), c\<lparr>stats := (stats c)\<lparr>Hits := Hits (stats c) + 1\<rparr>\<rparr>)"
proof -
  have p: "Put now c (Some r) =
      (None, c\<lparr>conns := Some \<lparr>buf = [Some \<lparr>conn = Some r, t = now\<rparr>], cap = 1\<rparr>\<rparr>)"
    using assms(1) by (simp add: Put_def)
  have "c\<lparr>conns := Some \<lparr>buf = [], cap = 1\<rparr>\<rparr> = c" using assms(1) by simp
  then have g: "Get now' (snd (Put now c (Some r))) =
        (Returned (Some r, None), c\<lparr>stats := (stats c)\<lparr>Hits := Hits (stats c) + 1\<rparr>\<rparr>)"
    using assms(2) by (auto simp add: p Get_def)
  show ?thesis using p g by simp
qed

theorem Put_then_Get_returns_same_resource_witness:
  "fst (Get 3 (snd (Put 2
      (NewChannelPool \<lparr>MaxCap = 1, Factory = Some (\<lambda>n. (Some (100 + n), None)),
         Close = Some (\<lambda>cn. None), IdleTimeout = 0\<rparr> :: (nat, unit) channelPool)
      (Some 7)))) = Returned (Some 7, None)
   \<and> stats (snd (Get 3 (snd (Put 2
      (NewChannelPool \<lparr>MaxCap = 1, Factory = Some (\<lambda>n. (Some (100 + n), None)),
         Close = Some (\<lambda>cn. None), IdleTimeout = 0\<rparr> :: (nat, unit) channelPool)
      (Some 7))))) = \<lparr>Hits = 1, Misses = 0, TotalConns = 0\<rparr>"
proof -
  let ?P = "NewChannelPool \<lparr>MaxCap = 1, Factory = Some (\<lambda>n. (Some (100 + n), None)),
         Close = Some (\<lambda>cn. None), IdleTimeout = 0\<rparr> :: (nat, unit) channelPool"
  have h1: "conns ?P = Some \<lparr>buf = [], cap = 1\<rparr>" by (simp add: NewChannelPool_def)
  have h2: "idleTimeout ?P \<le> 0 \<or> 3 - 2 \<le> idleTimeout ?P" by (simp add: NewChannelPool_def)
  note eq = Put_then_Get_returns_same_resource [OF h1 h2, of 7, THEN conjunct2]
  show ?thesis unfolding eq by (simp add: NewChannelPool_def)
qed

text \<open>
  C1 without the empty buffer: a pool of capacity 1 that already holds the idle resource 5.
  \<open>Put\<close> of the resource 7 finds the buffer full and closes 7; the \<open>Get\<close> that follows
  returns 5, the older resource, and not the 7 that was just handed back.
\<close>

theorem Put_on_full_pool_then_Get_returns_older_resource:
  "snd (Put 1
      (NewChannelPool \<lparr>MaxCap = 1, Factory = Some (\<lambda>n. (Some (100 + n), None)),
         Close = Some (\<lambda>cn. None), IdleTimeout = 0\<rparr> :: (nat, unit) channelPool)
      (Some 5)) =
     \<lparr>conns = Some \<lparr>buf = [Some \<lparr>conn = Some 5, t = 1\<rparr>], cap = 1\<rparr>,
      factory = Some (\<lambda>n. (Some (100 + n), None)),
      close = Some (\<lambda>cn. None), idleTimeout = 0,
      stats = \<lparr>Hits = 0, Misses = 0, TotalConns = 0\<rparr>, closeLog = [], factoryCalls = 0\<rparr>
   \<and> Put 2
     (\<lparr>conns = Some \<lparr>buf = [Some \<lparr>conn = Some 5, t = 1\<rparr>], cap = 1\<rparr>,
       factory = Some (\<lambda>n. (Some (100 + n), None)),
       close = Some (\<lambda>cn. None), idleTimeout = 0,
       stats = \<lparr>Hits = 0, Misses = 0, TotalConns = 0\<rparr>, closeLog = [], factoryCalls = 0\<rparr>
      :: (nat, unit) channelPool) (Some 7) =
     (None,
      \<lparr>conns = Some \<lparr>buf = [Some \<lparr>conn = Some 5, t = 1\<rparr>], cap = 1\<rparr>,
       factory = Some (\<lambda>n. (Some (100 + n), None)),
       close = Some (\<lambda>cn. None), idleTimeout = 0,
       stats = \<lparr>Hits = 0, Misses = 0, TotalConns = 0\<rparr>, closeLog = [Some 7],
       factoryCalls = 0\<rparr>)
   \<and> fst (Get 3
     (\<lparr>conns = Some \<lparr>buf = [Some \<lparr>conn = Some 5, t = 1\<rparr>], cap = 1\<rparr>,
       factory = Some (\<lambda>n. (Some (100 + n), None)),
       close = Some (\<lambda>cn. None), idleTimeout = 0,
       stats = \<lparr>Hits = 0, Misses = 0, TotalConns = 0\<rparr>, closeLog = [Some 7],
       factoryCalls = 0\<rparr> :: (nat, unit) channelPool)) = Returned (Some 5, None)
   \<and> fst (Get 3
     (\<lparr>conns = Some \<lparr>buf = [Some \<lparr>conn = Some 5, t = 1\<rparr>], cap = 1\<rparr>,
       factory = Some (\<lambda>n. (Some (100 + n), None)),
       close = Some (\<lambda>cn. None), idleTimeout = 0,
       stats = \<lparr>Hits = 0, Misses = 0, TotalConns = 0\<rparr>, closeLog = [Some 7],
       factoryCalls = 0\<rparr> :: (nat, unit) channelPool)) \<noteq> Returned (Some 7, None)"
  by (simp add: NewChannelPool_def Put_def Close_def Get_def)

section \<open>The capacity of the idle buffer\<close>

text \<open>
  C2: Start from an open pool whose buffer holds no more than its capacity, with no call
  of \<open>Get\<close> in between. After any sequence \<open>calls\<close> of \<open>Put\<close> (nil resources included)
  the buffer holds no more than its capacity. For a sequence \<open>rs\<close> of resources that are
  not nil, let \<open>m\<close> be the room that was left in the buffer: the first \<open>m\<close> resources are
  appended to the buffer and their \<open>Put\<close> returns nil; each of the remaining ones stays out
  of the buffer and goes through \<open>Close\<close>, which calls the closer on it exactly once and
  returns what the closer returned (and, for a pool without closer, calls nothing and
  returns nil).
\<close>

theorem Put_never_exceeds_capacity:
  assumes "conns c = Some ch" and "length (buf ch) \<le> cap ch"
  shows "Len (snd (Puts c calls)) \<le> cap ch
    \<and> Puts c (map (\<lambda>(r, tm). (Some r, tm)) rs) =
       (replicate (length (take (cap ch - length (buf ch)) rs)) None @
          (case close c of
             None \<Rightarrow> replicate (length (drop (cap ch - length (buf ch)) rs)) None
           | Some f \<Rightarrow> map (\<lambda>(r, tm). f (Some r)) (drop (cap ch - length (buf ch)) rs)),
        c\<lparr>conns := Some (ch\<lparr>buf := buf ch @
                   map (\<lambda>(r, tm). Some \<lparr>conn = Some r, t = tm\<rparr>)
                     (take (cap ch - length (buf ch)) rs)\<rparr>),
          closeLog := closeLog c @
            (case close c of
               None \<Rightarrow> []
             | Some f \<Rightarrow> map (Some \<circ> fst) (drop (cap ch - length (buf ch)) rs))\<rparr>)"
proof -
  obtain ch1 where "conns (snd (Puts c calls)) = Some ch1" "cap ch1 = cap ch"
      "length (buf ch1) \<le> cap ch1"
    using Puts_bounded [OF assms] by blast
  then have "Len (snd (Puts c calls)) \<le> cap ch" by (simp add: Len_def)
  then show ?thesis using Puts_entries [OF assms(1), of rs] by simp
qed

text \<open>Four resources handed back to a new pool of capacity 2, with a closer that fails.\<close>

theorem Put_never_exceeds_capacity_witness:
  "Len (snd (Puts (NewChannelPool \<lparr>MaxCap = 2, Factory = Some (\<lambda>n. (Some (100 + n), None)),
           Close = Some (\<lambda>cn. Some (Opaque cn)), IdleTimeout = 0\<rparr>
         :: (nat, nat option) channelPool)
     [(Some 1, 10), (None, 11), (Some 2, 12), (Some 3, 13)])) \<le> 2
   \<and> Puts (NewChannelPool \<lparr>MaxCap = 2, Factory = Some (\<lambda>n. (Some (100 + n), None)),
           Close = Some (\<lambda>cn. Some (Opaque cn)), IdleTimeout = 0\<rparr>
         :: (nat, nat option) channelPool)
     [(Some 1, 10), (Some 2, 11), (Some 3, 12), (Some 4, 13)] =
   ([None, None, Some (Opaque (Some 3)), Some (Opaque (Some 4))],
    \<lparr>conns = Some \<lparr>buf = [Some \<lparr>conn = Some 1, t = 10\<rparr>, Some \<lparr>conn = Some 2, t = 11\<rparr>],
                    cap = 2\<rparr>,
     factory = Some (\<lambda>n. (Some (100 + n), None)),
     close = Some (\<lambda>cn. Some (Opaque cn)),
     idleTimeout = 0,
     stats = \<lparr>Hits = 0, Misses = 0, TotalConns = 0\<rparr>,
     closeLog = [Some 3, Some 4],
     factoryCalls = 0\<rparr>)"
proof -
  let ?P = "NewChannelPool \<lparr>MaxCap = 2, Factory = Some (\<lambda>n. (Some (100 + n), None)),
           Close = Some (\<lambda>cn. Some (Opaque cn)), IdleTimeout = 0\<rparr>
         :: (nat, nat option) channelPool"
  have h1: "conns ?P = Some \<lparr>buf = [], cap = 2\<rparr>" by (simp add: NewChannelPool_def)
  have h2: "length (buf \<lparr>buf = ([] :: nat idleConn option list), cap = 2\<rparr>)
      \<le> cap \<lparr>buf = ([] :: nat idleConn option list), cap = 2\<rparr>" by simp
  show ?thesis
    using Put_never_exceeds_capacity [OF h1 h2,
        where calls = "[(Some 1, 10), (None, 11), (Some 2, 12), (Some 3, 13)]"
          and rs = "[(1, 10), (2, 11), (3, 12), (4, 13)]"]
    by (simp add: NewChannelPool_def)
qed

section \<open>Entries that stayed idle for too long\<close>

text \<open>
  C3: Take an open pool with \<open>idleTimeout > 0\<close> and a factory, whose buffer holds the
  resources \<open>xs\<close> with the instants at which they were handed back, and call \<open>Get\<close> at the
  instant \<open>now\<close>. The entries at the head of the queue whose age \<open>now - tm\<close> exceeds
  \<open>idleTimeout\<close> are popped and none of them is returned: each goes through \<open>Close\<close>, so
  the closer, if there is one, is called on each of them in order. If an entry is left, the
  first one has an age of at most \<open>idleTimeout\<close>; it is returned with a nil error, \<open>Hits\<close>
  is one more and the entries behind it stay in the buffer. If none is left, the buffer is
  empty and the factory is called once: its resource is returned and \<open>Misses\<close> is one more,
  or its error is returned and the counters stay.
\<close>

theorem Get_never_returns_stale_entry:
  assumes "conns c = Some ch" and "0 < idleTimeout c" and "factory c = Some f"
    and "buf ch = map (\<lambda>(r, tm). Some \<lparr>conn = Some r, t = tm\<rparr>) xs"
  shows "(let stale = (\<lambda>(r, tm). idleTimeout c < now - tm);
              cL = c\<lparr>closeLog := closeLog c @
                     (case close c of None \<Rightarrow> []
                      | Some g \<Rightarrow> map (Some \<circ> fst) (takeWhile stale xs))\<rparr>
          in (\<forall>(r, tm) \<in> set (takeWhile stale xs). idleTimeout c < now - tm)
           \<and> (case dropWhile stale xs of
                 (r, tm) # rest \<Rightarrow>
                   now - tm \<le> idleTimeout c
                   \<and> Get now c =
                       (Returned (Some r, None),
                        cL\<lparr>conns := Some \<lparr>buf = map (\<lambda>(r, tm). Some \<lparr>conn = Some r, t = tm\<rparr>) rest,
                                          cap = cap ch\<rparr>,
                           stats := (stats c)\<lparr>Hits := Hits (stats c) + 1\<rparr>\<rparr>)
               | [] \<Rightarrow>
                   Get now c =
                     (let n = factoryCalls c;
                          c0 = cL\<lparr>conns := Some \<lparr>buf = [], cap = cap ch\<rparr>,
                                  factoryCalls := Suc n\<rparr>
                      in if snd (f n) = None
                         then (Returned (fst (f n), None),
                               c0\<lparr>stats := (stats c)\<lparr>Misses := Misses (stats c) + 1\<rparr>\<rparr>)
                         else (Returned (None, snd (f n)), c0))))"
proof -
  let ?stale = "\<lambda>(r, tm). idleTimeout c < now - tm"
  let ?E = "\<lambda>(r, tm). Some \<lparr>conn = Some r, t = tm\<rparr>"
  let ?cL = "c\<lparr>closeLog := closeLog c @
                     (case close c of None \<Rightarrow> []
                      | Some g \<Rightarrow> map (Some \<circ> fst) (takeWhile ?stale xs))\<rparr>"
  have pre: "\<forall>(r, tm) \<in> set (takeWhile ?stale xs). idleTimeout c < now - tm"
    by (auto dest: set_takeWhileD)
  have split: "buf ch = map ?E (takeWhile ?stale xs) @ map ?E (dropWhile ?stale xs)"
    unfolding assms(4) map_append [symmetric] by simp
  have get: "Get now c = Get_loop now (cap ch) (map ?E (dropWhile ?stale xs)) ?cL"
    using assms(1)
      Get_loop_stale_prefix [OF assms(2) pre, of "cap ch" "map ?E (dropWhile ?stale xs)"]
    by (simp add: Get_def split)
  show ?thesis
  proof (cases "dropWhile ?stale xs")
    case Nil
    have "Get_loop now (cap ch) [] ?cL =
        (let n = factoryCalls c;
             c0 = ?cL\<lparr>conns := Some \<lparr>buf = [], cap = cap ch\<rparr>, factoryCalls := Suc n\<rparr>
         in if snd (f n) = None
            then (Returned (fst (f n), None),
                  c0\<lparr>stats := (stats c)\<lparr>Misses := Misses (stats c) + 1\<rparr>\<rparr>)
            else (Returned (None, snd (f n)), c0))"
      using assms(3) by (simp add: Let_def split: prod.splits)
    then show ?thesis using pre get unfolding Let_def Nil by simp
  next
    case (Cons y rest)
    obtain r tm where y: "y = (r, tm)" by (cases y)
    have "\<not> ?stale (hd (dropWhile ?stale xs))"
      by (rule hd_dropWhile) (simp add: Cons)
    then have fresh: "now - tm \<le> idleTimeout c" by (simp add: Cons y)
    have "Get_loop now (cap ch) (map ?E (y # rest)) ?cL =
        (Returned (Some r, None),
         ?cL\<lparr>conns := Some \<lparr>buf = map ?E rest, cap = cap ch\<rparr>,
             stats := (stats c)\<lparr>Hits := Hits (stats c) + 1\<rparr>\<rparr>)"
      using assms(2) fresh Get_loop_fresh_head [of ?cL now tm "cap ch" "Some r" "map ?E rest"]
      by (simp add: y)
    then show ?thesis using pre get fresh unfolding Let_def Cons y by simp
  qed
qed

text \<open>
  The scenario of the specification: an idle timeout of 10, a resource handed back at 0,
  \<open>Get\<close> at 20. The resource is closed and the factory makes the one that is returned.
\<close>

theorem Get_never_returns_stale_entry_witness:
  "Get 20
     (\<lparr>conns = Some \<lparr>buf = [Some \<lparr>conn = Some 7, t = 0\<rparr>], cap = 1\<rparr>,
       factory = Some (\<lambda>n. (Some (100 + n), None)),
       close = Some (\<lambda>cn. Some (Opaque cn)),
       idleTimeout = 10,
       stats = \<lparr>Hits = 0, Misses = 0, TotalConns = 0\<rparr>,
       closeLog = [],
       factoryCalls = 0\<rparr> :: (nat, nat option) channelPool) =
   (Returned (Some 100, None),
    \<lparr>conns = Some \<lparr>buf = [], cap = 1\<rparr>,
     factory = Some (\<lambda>n. (Some (100 + n), None)),
     close = Some (\<lambda>cn. Some (Opaque cn)),
     idleTimeout = 10,
     stats = \<lparr>Hits = 0, Misses = 1, TotalConns = 0\<rparr>,
     closeLog = [Some 7],
     factoryCalls = 1\<rparr>)"
proof -
  let ?c = "\<lparr>conns = Some \<lparr>buf = [Some \<lparr>conn = Some 7, t = 0\<rparr>], cap = 1\<rparr>,
       factory = Some (\<lambda>n. (Some (100 + n), None)),
       close = Some (\<lambda>cn. Some (Opaque cn)),
       idleTimeout = 10,
       stats = \<lparr>Hits = 0, Misses = 0, TotalConns = 0\<rparr>,
       closeLog = [],
       factoryCalls = 0\<rparr> :: (nat, nat option) channelPool"
  have h1: "conns ?c = Some \<lparr>buf = [Some \<lparr>conn = Some 7, t = 0\<rparr>], cap = 1\<rparr>" by simp
  have h2: "0 < idleTimeout ?c" by simp
  have h3: "factory ?c = Some (\<lambda>n. (Some (100 + n), None))" by simp
  have h4: "buf \<lparr>buf = [Some \<lparr>conn = Some (7 :: nat), t = 0\<rparr>], cap = 1\<rparr> =
      map (\<lambda>(r, tm). Some \<lparr>conn = Some r, t = tm\<rparr>) [(7, 0)]" by simp
  show ?thesis
    using Get_never_returns_stale_entry [OF h1 h2 h3 h4, of 20]
    by simp
qed

section \<open>The pool after \<open>Release\<close>\<close>

text \<open>
  C4: After \<open>Release\<close>, and after whatever calls of the four methods followed it, \<open>Get\<close>
  returns a nil resource with \<open>ErrClosed\<close> and leaves the pool as it is; in particular the
  factory is not called. This holds as well when \<open>Release\<close> itself panicked.
\<close>

theorem Get_after_Release_fails:
  "Get now (run (snd (Release c)) calls) =
     (Returned (None, Some ErrClosed), run (snd (Release c)) calls)"
  by (simp add: closed_run closed_after_Release Get_def)

theorem Get_after_Release_fails_witness:
  "Get 5 (run (snd (Release
      (NewChannelPool \<lparr>MaxCap = 2, Factory = Some (\<lambda>n. (Some (100 + n), None)),
         Close = Some (\<lambda>cn. None), IdleTimeout = 0\<rparr> :: (nat, unit) channelPool)))
      [CallPut 1 (Some 7), CallGet 2]) =
   (Returned (None, Some ErrClosed),
    \<lparr>conns = None, factory = None, close = None, idleTimeout = 0,
     stats = \<lparr>Hits = 0, Misses = 0, TotalConns = 0\<rparr>, closeLog = [], factoryCalls = 0\<rparr>)"
proof -
  have "run (snd (Release
      (NewChannelPool \<lparr>MaxCap = 2, Factory = Some (\<lambda>n. (Some (100 + n), None)),
         Close = Some (\<lambda>cn. None), IdleTimeout = 0\<rparr> :: (nat, unit) channelPool)))
      [CallPut 1 (Some 7), CallGet 2] =
    \<lparr>conns = None, factory = None, close = None, idleTimeout = 0,
     stats = \<lparr>Hits = 0, Misses = 0, TotalConns = 0\<rparr>, closeLog = [], factoryCalls = 0\<rparr>"
    by (simp add: run_def Release_def NewChannelPool_def Put_def Close_def Get_def)
  then show ?thesis
    using Get_after_Release_fails [of 5
      "NewChannelPool \<lparr>MaxCap = 2, Factory = Some (\<lambda>n. (Some (100 + n), None)),
         Close = Some (\<lambda>cn. None), IdleTimeout = 0\<rparr> :: (nat, unit) channelPool"
      "[CallPut 1 (Some 7), CallGet 2]"]
    by simp
qed

text \<open>
  C9: After \<open>Release\<close>, and after whatever calls followed it, \<open>Put\<close> of a resource that is
  not nil returns nil and leaves the pool as it is: the resource does not enter a buffer
  (there is none) and the closer that was configured is not called, since \<open>Close\<close> finds
  the \<open>close\<close> field cleared.
\<close>

theorem Put_after_Release_is_noop:
  "Put now (run (snd (Release c)) calls) (Some r) = (None, run (snd (Release c)) calls)"
  by (simp add: closed_run closed_after_Release Put_def Close_def)

theorem Put_after_Release_is_noop_witness:
  "Put 5 (snd (Release
      (NewChannelPool \<lparr>MaxCap = 2, Factory = Some (\<lambda>n. (Some (100 + n), None)),
         Close = Some (\<lambda>cn. Some (Opaque cn)), IdleTimeout = 0\<rparr>
       :: (nat, nat option) channelPool))) (Some 7) =
   (None,
    \<lparr>conns = None, factory = None, close = None, idleTimeout = 0,
     stats = \<lparr>Hits = 0, Misses = 0, TotalConns = 0\<rparr>, closeLog = [], factoryCalls = 0\<rparr>)"
proof -
  have "snd (Release
      (NewChannelPool \<lparr>MaxCap = 2, Factory = Some (\<lambda>n. (Some (100 + n), None)),
         Close = Some (\<lambda>cn. Some (Opaque cn)), IdleTimeout = 0\<rparr>
       :: (nat, nat option) channelPool)) =
    \<lparr>conns = None, factory = None, close = None, idleTimeout = 0,
     stats = \<lparr>Hits = 0, Misses = 0, TotalConns = 0\<rparr>, closeLog = [], factoryCalls = 0\<rparr>"
    by (simp add: Release_def NewChannelPool_def)
  then show ?thesis
    using Put_after_Release_is_noop [of 5
      "NewChannelPool \<lparr>MaxCap = 2, Factory = Some (\<lambda>n. (Some (100 + n), None)),
         Close = Some (\<lambda>cn. Some (Opaque cn)), IdleTimeout = 0\<rparr>
       :: (nat, nat option) channelPool" "[]" 7]
    by (simp add: run_def)
qed

section \<open>\<open>Release\<close> and the idle entries\<close>

text \<open>
  C5: \<open>Release\<close> reads the \<open>close\<close> field before it clears the fields of the pool. On an
  open pool that has a closer and whose buffer holds the resources \<open>xs\<close>, it returns after
  calling that closer exactly once on each of them, in the order of the queue, and on
  nothing else; the pool is left without channel, factory and closer. So the closer is
  called as many times as there were entries, and on different resources when the entries
  held different resources.
\<close>

theorem Release_closes_each_idle_entry_once:
  assumes "conns c = Some ch" and "close c = Some f"
    and "buf ch = map (\<lambda>(r, tm). Some \<lparr>conn = Some r, t = tm\<rparr>) xs"
  shows "Release c =
     (Returned (),
      c\<lparr>conns := None, factory := None, close := None,
        closeLog := closeLog c @ map (Some \<circ> fst) xs\<rparr>)"
  using assms by (simp add: Release_def Release_loop_entries)

text \<open>
  The scenario of the specification: five resources handed back to a new pool of capacity
  5, then \<open>Release\<close>.
\<close>

theorem Release_closes_each_idle_entry_once_witness:
  "Release (snd (Puts
      (NewChannelPool \<lparr>MaxCap = 5, Factory = Some (\<lambda>n. (Some (100 + n), None)),
         Close = Some (\<lambda>cn. None), IdleTimeout = 0\<rparr> :: (nat, unit) channelPool)
      [(Some 1, 10), (Some 2, 11), (Some 3, 12), (Some 4, 13), (Some 5, 14)])) =
   (Returned (),
    \<lparr>conns = None, factory = None, close = None, idleTimeout = 0,
     stats = \<lparr>Hits = 0, Misses = 0, TotalConns = 0\<rparr>,
     closeLog = [Some 1, Some 2, Some 3, Some 4, Some 5], factoryCalls = 0\<rparr>)
   \<and> length [Some 1, Some 2, Some 3, Some 4, Some (5 :: nat)] = 5
   \<and> distinct [Some 1, Some 2, Some 3, Some 4, Some (5 :: nat)]"
proof -
  let ?c = "\<lparr>conns = Some \<lparr>buf = [Some \<lparr>conn = Some 1, t = 10\<rparr>, Some \<lparr>conn = Some 2, t = 11\<rparr>,
                Some \<lparr>conn = Some 3, t = 12\<rparr>, Some \<lparr>conn = Some 4, t = 13\<rparr>,
                Some \<lparr>conn = Some 5, t = 14\<rparr>], cap = 5\<rparr>,
       factory = Some (\<lambda>n. (Some (100 + n), None)),
       close = Some (\<lambda>cn. None),
       idleTimeout = 0,
       stats = \<lparr>Hits = 0, Misses = 0, TotalConns = 0\<rparr>,
       closeLog = [],
       factoryCalls = 0\<rparr> :: (nat, unit) channelPool"
  have puts: "snd (Puts
      (NewChannelPool \<lparr>MaxCap = 5, Factory = Some (\<lambda>n. (Some (100 + n), None)),
         Close = Some (\<lambda>cn. None), IdleTimeout = 0\<rparr> :: (nat, unit) channelPool)
      [(Some 1, 10), (Some 2, 11), (Some 3, 12), (Some 4, 13), (Some 5, 14)]) = ?c"
    by (simp add: NewChannelPool_def Put_def)
  have h1: "conns ?c = Some \<lparr>buf = [Some \<lparr>conn = Some 1, t = 10\<rparr>, Some \<lparr>conn = Some 2, t = 11\<rparr>,
                Some \<lparr>conn = Some 3, t = 12\<rparr>, Some \<lparr>conn = Some 4, t = 13\<rparr>,
                Some \<lparr>conn = Some 5, t = 14\<rparr>], cap = 5\<rparr>" by simp
  have h2: "close ?c = Some (\<lambda>cn. None)" by simp
  have h3: "buf \<lparr>buf = [Some \<lparr>conn = Some (1 :: nat), t = 10\<rparr>, Some \<lparr>conn = Some 2, t = 11\<rparr>,
                Some \<lparr>conn = Some 3, t = 12\<rparr>, Some \<lparr>conn = Some 4, t = 13\<rparr>,
                Some \<lparr>conn = Some 5, t = 14\<rparr>], cap = 5\<rparr> =
      map (\<lambda>(r, tm). Some \<lparr>conn = Some r, t = tm\<rparr>)
        [(1, 10), (2, 11), (3, 12), (4, 13), (5, 14)]" by simp
  show ?thesis
    unfolding puts Release_closes_each_idle_entry_once [OF h1 h2 h3]
    by simp
qed

section \<open>\<open>Get\<close> on an empty buffer\<close>

text \<open>
  C6: On an open pool whose buffer is empty and that has a factory, \<open>Get\<close> calls the
  factory once. If the factory returns no error, its resource is returned with a nil error
  and \<open>Misses\<close> is one more (modulo \<open>2^32\<close>); if it returns an error, \<open>Get\<close> returns a
  nil resource and that very error, and \<open>Hits\<close>, \<open>Misses\<close> and the buffer are as before.
\<close>

theorem Get_on_empty_buffer:
  assumes "conns c = Some ch" and "buf ch = []" and "factory c = Some f"
  shows "Get now c =
     (if snd (f (factoryCalls c)) = None
      then (Returned (fst (f (factoryCalls c)), None),
            c\<lparr>factoryCalls := Suc (factoryCalls c),
              stats := (stats c)\<lparr>Misses := Misses (stats c) + 1\<rparr>\<rparr>)
      else (Returned (None, snd (f (factoryCalls c))),
            c\<lparr>factoryCalls := Suc (factoryCalls c)\<rparr>))"
proof -
  have "ch = \<lparr>buf = [], cap = cap ch\<rparr>" using assms(2) by (cases ch) simp
  then have "c\<lparr>conns := Some \<lparr>buf = [], cap = cap ch\<rparr>\<rparr> = c" using assms(1) by simp
  then show ?thesis using assms
    by (simp add: Get_def Let_def split: prod.splits)
qed

text \<open>A factory whose first call fails and whose second call succeeds.\<close>

theorem Get_on_empty_buffer_witness:
  "Get 1 (NewChannelPool \<lparr>MaxCap = 1,
       Factory = Some (\<lambda>n. if n = 0 then (None, Some (Opaque ''dial'')) else (Some n, None)),
       Close = None, IdleTimeout = 0\<rparr> :: (nat, string) channelPool) =
   (Returned (None, Some (Opaque ''dial'')),
    \<lparr>conns = Some \<lparr>buf = [], cap = 1\<rparr>,
     factory = Some (\<lambda>n. if n = 0 then (None, Some (Opaque ''dial'')) else (Some n, None)),
     close = None, idleTimeout = 0,
     stats = \<lparr>Hits = 0, Misses = 0, TotalConns = 0\<rparr>, closeLog = [], factoryCalls = 1\<rparr>)
   \<and> Get 2
     (\<lparr>conns = Some \<lparr>buf = [], cap = 1\<rparr>,
       factory = Some (\<lambda>n. if n = 0 then (None, Some (Opaque ''dial'')) else (Some n, None)),
       close = None, idleTimeout = 0,
       stats = \<lparr>Hits = 0, Misses = 0, TotalConns = 0\<rparr>, closeLog = [], factoryCalls = 1\<rparr>
      :: (nat, string) channelPool) =
   (Returned (Some 1, None),
    \<lparr>conns = Some \<lparr>buf = [], cap = 1\<rparr>,
     factory = Some (\<lambda>n. if n = 0 then (None, Some (Opaque ''dial'')) else (Some n, None)),
     close = None, idleTimeout = 0,
     stats = \<lparr>Hits = 0, Misses = 1, TotalConns = 0\<rparr>, closeLog = [], factoryCalls = 2\<rparr>)"
proof -
  let ?f = "\<lambda>n :: nat. if n = 0 then (None, Some (Opaque ''dial'')) else (Some n, None)"
  let ?P = "NewChannelPool \<lparr>MaxCap = 1, Factory = Some ?f, Close = None, IdleTimeout = 0\<rparr>
      :: (nat, string) channelPool"
  let ?c = "\<lparr>conns = Some \<lparr>buf = [], cap = 1\<rparr>, factory = Some ?f,
       close = None, idleTimeout = 0,
       stats = \<lparr>Hits = 0, Misses = 0, TotalConns = 0\<rparr>, closeLog = [], factoryCalls = 1\<rparr>
      :: (nat, string) channelPool"
  have p1: "conns ?P = Some \<lparr>buf = [], cap = 1\<rparr>" by (simp add: NewChannelPool_def)
  have p3: "factory ?P = Some ?f" by (simp add: NewChannelPool_def)
  have c1: "conns ?c = Some \<lparr>buf = [], cap = 1\<rparr>" by simp
  have c3: "factory ?c = Some ?f" by simp
  have e: "buf \<lparr>buf = ([] :: nat idleConn option list), cap = 1\<rparr> = []" by simp
  show ?thesis
    unfolding Get_on_empty_buffer [OF p1 e p3] Get_on_empty_buffer [OF c1 e c3]
    by (simp add: NewChannelPool_def)
qed

section \<open>Errors of the closer\<close>

text \<open>
  C8: What \<open>Get\<close> returns (resource and error), and what it leaves in the buffer and in the
  counters, is the same whatever the closer of the pool is, and so whatever the closer
  returns for the entries that \<open>Get\<close> discards as too old: an error of the closer on that
  path does not reach the caller of \<open>Get\<close>. \<open>Close\<close> on a resource that is not nil returns
  what the closer returned, unchanged, and so does \<open>Put\<close> when the pool has no channel or
  the buffer is full.
\<close>

theorem closer_error_suppressed_in_Get_only:
  "fst (Get now (c\<lparr>close := cl1\<rparr>)) = fst (Get now (c\<lparr>close := cl2\<rparr>))
   \<and> conns (snd (Get now (c\<lparr>close := cl1\<rparr>))) = conns (snd (Get now (c\<lparr>close := cl2\<rparr>)))
   \<and> stats (snd (Get now (c\<lparr>close := cl1\<rparr>))) = stats (snd (Get now (c\<lparr>close := cl2\<rparr>)))
   \<and> fst (Close (c\<lparr>close := Some f\<rparr>) (Some r)) = f (Some r)
   \<and> fst (Put now (c\<lparr>close := Some f\<rparr>) (Some r)) =
       (case conns c of
          None \<Rightarrow> f (Some r)
        | Some ch \<Rightarrow> if length (buf ch) < cap ch then None else f (Some r))"
proof -
  have g: "fst (Get now (c\<lparr>close := cl\<rparr>)) = fst (Get now c)
      \<and> conns (snd (Get now (c\<lparr>close := cl\<rparr>))) = conns (snd (Get now c))
      \<and> stats (snd (Get now (c\<lparr>close := cl\<rparr>))) = stats (snd (Get now c))" for cl
  proof (cases "conns c")
    case None
    then show ?thesis by (simp add: Get_def)
  next
    case (Some ch)
    show ?thesis
      using Some Get_loop_closer_irrelevant [where now = now and k = "cap ch"
          and xs = "buf ch" and c = c and cl = cl and lg = "closeLog c"]
      by (simp add: Get_def)
  qed
  have "fst (Close (c\<lparr>close := Some f\<rparr>) (Some r)) = f (Some r)"
    by (simp add: Close_def)
  moreover have "fst (Put now (c\<lparr>close := Some f\<rparr>) (Some r)) =
       (case conns c of
          None \<Rightarrow> f (Some r)
        | Some ch \<Rightarrow> if length (buf ch) < cap ch then None else f (Some r))"
    by (simp add: Put_def Close_def split: option.splits)
  ultimately show ?thesis using g [of cl1] g [of cl2] by simp
qed

text \<open>
  A pool with an idle timeout of 10 that holds one entry of age 20, and a closer that
  always fails: \<open>Get\<close> returns the resource made by the factory and a nil error, while
  \<open>Close\<close> and an overflowing \<open>Put\<close> return the error of the closer.
\<close>

theorem closer_error_suppressed_in_Get_only_witness:
  "fst (Get 20
     (\<lparr>conns = Some \<lparr>buf = [Some \<lparr>conn = Some 7, t = 0\<rparr>], cap = 1\<rparr>,
       factory = Some (\<lambda>n. (Some (100 + n), None)),
       close = Some (\<lambda>cn. Some (Opaque ''broken pipe'')), idleTimeout = 10,
       stats = \<lparr>Hits = 0, Misses = 0, TotalConns = 0\<rparr>, closeLog = [], factoryCalls = 0\<rparr>
      :: (nat, string) channelPool)) = Returned (Some 100, None)
   \<and> fst (Close
     (\<lparr>conns = Some \<lparr>buf = [Some \<lparr>conn = Some 7, t = 0\<rparr>], cap = 1\<rparr>,
       factory = Some (\<lambda>n. (Some (100 + n), None)),
       close = Some (\<lambda>cn. Some (Opaque ''broken pipe'')), idleTimeout = 10,
       stats = \<lparr>Hits = 0, Misses = 0, TotalConns = 0\<rparr>, closeLog = [], factoryCalls = 0\<rparr>
      :: (nat, string) channelPool) (Some 8)) = Some (Opaque ''broken pipe'')
   \<and> fst (Put 20
     (\<lparr>conns = Some \<lparr>buf = [Some \<lparr>conn = Some 7, t = 0\<rparr>], cap = 1\<rparr>,
       factory = Some (\<lambda>n. (Some (100 + n), None)),
       close = Some (\<lambda>cn. Some (Opaque ''broken pipe'')), idleTimeout = 10,
       stats = \<lparr>Hits = 0, Misses = 0, TotalConns = 0\<rparr>, closeLog = [], factoryCalls = 0\<rparr>
      :: (nat, string) channelPool) (Some 8)) = Some (Opaque ''broken pipe'')"
proof -
  let ?c = "\<lparr>conns = Some \<lparr>buf = [Some \<lparr>conn = Some 7, t = 0\<rparr>], cap = 1\<rparr>,
       factory = Some (\<lambda>n. (Some (100 + n), None)),
       close = None, idleTimeout = 10,
       stats = \<lparr>Hits = 0, Misses = 0, TotalConns = 0\<rparr>, closeLog = [], factoryCalls = 0\<rparr>
      :: (nat, string) channelPool"
  have "fst (Get 20 (?c\<lparr>close := None\<rparr>)) = Returned (Some 100, None)"
    by (simp add: Get_def Close_def)
  then show ?thesis
    using closer_error_suppressed_in_Get_only [where now = 20 and c = ?c
        and ?cl1.0 = "Some (\<lambda>cn. Some (Opaque ''broken pipe''))" and ?cl2.0 = None
        and f = "\<lambda>cn. Some (Opaque ''broken pipe'')" and r = 8]
    by simp
qed

section \<open>\<open>Release\<close> on a pool without closer\<close>

text \<open>
  C10: A pool built with \<open>Close = nil\<close> to which one resource was handed back: \<open>Release\<close>
  calls the nil function on the entry it drains and panics, where \<open>Close\<close> on the same pool
  returns nil without calling anything.
\<close>

theorem Release_without_closer_panics:
  "fst (Release (snd (Put 0
      (NewChannelPool \<lparr>MaxCap = 1, Factory = Some (\<lambda>n. (Some (100 + n), None)),
         Close = None, IdleTimeout = 0\<rparr> :: (nat, unit) channelPool) (Some 7)))) = Panicked
   \<and> fst (Close
      (NewChannelPool \<lparr>MaxCap = 1, Factory = Some (\<lambda>n. (Some (100 + n), None)),
         Close = None, IdleTimeout = 0\<rparr> :: (nat, unit) channelPool) (Some 7)) = None"
  by (simp add: Release_def Put_def Close_def NewChannelPool_def)

end
